theory Spec2Isabelle
  imports Main "HOL-Library.While_Combinator"
begin

section \<open>export\_repo.py: collecting lines and partitioning them into parts\<close>

text \<open>
  The script reads every tracked file into one flat list of lines (\<open>read_all_lines\<close>) and
  writes that list out in numbered parts of alternating size (\<open>write_exports\<close>).

  A line is a Python \<open>str\<close>; the model uses \<open>string\<close>. The integers \<open>index\<close> and \<open>pos\<close> of
  \<open>write_exports\<close> start at 1 and 0 and are only ever incremented, so they are modelled as
  \<open>nat\<close>.
\<close>

type_synonym line = string

abbreviation newline :: char where
  "newline \<equiv> CHR 0x0A"

subsection \<open>The partitioner (\<open>write_exports\<close>)\<close>

text \<open>
  A \<open>pathlib.Path\<close> is the sequence of its components; \<open>export_root / name\<close> appends one.
\<close>

type_synonym path = "string list"

definition path_join :: "path \<Rightarrow> string \<Rightarrow> path" where
  "path_join export_root name = export_root @ [name]"

text \<open>
  What one pass through the loop body writes. \<open>written\<close> is the list handed to
  \<open>fh.writelines\<close> and \<open>out_path\<close> the file it goes to. Two fields record values of local
  variables that the file itself does not show: \<open>idx\<close> is the value of \<open>index\<close> during the
  pass, and \<open>padding\<close> is the number of lines that line 37 appended to the slice
  (0 when the slice already had the target length).
\<close>

record write_event =
  idx :: nat
  out_path :: path
  written :: "line list"
  padding :: nat

text \<open>Line 33: \<open>target = 225 if index % 2 == 1 else 180\<close>.\<close>

definition target_size :: "nat \<Rightarrow> nat" where
  "target_size index = (if index mod 2 = 1 then 225 else 180)"

text \<open>The slice \<open>xs[i:j]\<close> of a list, for \<open>0 \<le> i \<le> j\<close>: it stops at the end of the list.\<close>

definition slice :: "'a list \<Rightarrow> nat \<Rightarrow> nat \<Rightarrow> 'a list" where
  "slice xs i j = take (j - i) (drop i xs)"

text \<open>
  The format specification \<open>{index:03d}\<close>: the decimal digits of the number, with zeros in
  front when there are fewer than three of them.
\<close>

definition digit_char :: "nat \<Rightarrow> char" where
  "digit_char d = char_of (48 + d)"

fun decimal :: "nat \<Rightarrow> string" where
  "decimal n = (if n < 10 then [digit_char n] else decimal (n div 10) @ [digit_char (n mod 10)])"

declare decimal.simps [simp del]

definition format_03d :: "nat \<Rightarrow> string" where
  "format_03d n = replicate (3 - length (decimal n)) CHR ''0'' @ decimal n"

definition part_name :: "nat \<Rightarrow> string" where
  "part_name index = ''part_'' @ format_03d index @ ''.txt''"

text \<open>
  The local variables that live across iterations of the loop of lines 32 to 41, and the
  files written so far, in the order of writing. Creating the directory and writing a
  file are taken to succeed: a failure there raises and ends the run.
\<close>

record loop_state =
  index :: nat
  pos :: nat
  files :: "write_event list"

text \<open>One pass through the loop body, lines 33 to 41.\<close>

definition loop_body :: "line list \<Rightarrow> path \<Rightarrow> loop_state \<Rightarrow> loop_state" where
  "loop_body lines export_root s =
     (let target = target_size (index s);
          chunk = slice lines (pos s) (pos s + target);
          pos' = pos s + target;
          pad = (if length chunk < target then target - length chunk else 0);
          chunk' = (if length chunk < target
                    then chunk @ replicate (target - length chunk) [newline]
                    else chunk);
          out = path_join export_root (part_name (index s))
      in \<lparr>index = index s + 1, pos = pos',
          files = files s @ [\<lparr>idx = index s, out_path = out, written = chunk', padding = pad\<rparr>]\<rparr>)"

text \<open>The loop: \<open>while pos < len(lines)\<close>.\<close>

function write_loop :: "line list \<Rightarrow> path \<Rightarrow> loop_state \<Rightarrow> loop_state" where
  "write_loop lines export_root s =
     (if pos s < length lines
      then write_loop lines export_root (loop_body lines export_root s)
      else s)"
  by pat_completeness auto
termination
  by (relation "measure (\<lambda>(lines, export_root, s). length lines - pos s)")
     (auto simp: loop_body_def target_size_def Let_def)

declare write_loop.simps [simp del]

definition write_exports :: "line list \<Rightarrow> path \<Rightarrow> write_event list" where
  "write_exports lines export_root =
     files (write_loop lines export_root \<lparr>index = 1, pos = 0, files = []\<rparr>)"

text \<open>
  Notions the properties below are stated with. The lines of a chunk that come from the
  input are those before its padding lines. The value of a string of decimal digits tells
  which number a file name carries. The running target boundary after \<open>n\<close> chunks is the
  sum of the first \<open>n\<close> targets: 225, 405, 630, ...
\<close>

definition unpadded :: "write_event \<Rightarrow> line list" where
  "unpadded e = take (length (written e) - padding e) (written e)"

definition digits_value :: "string \<Rightarrow> nat" where
  "digits_value ds = foldl (\<lambda>acc c. 10 * acc + (of_char c - 48)) 0 ds"

primrec boundary :: "nat \<Rightarrow> nat" where
  "boundary 0 = 0"
| "boundary (Suc n) = boundary n + target_size (Suc n)"

subsection \<open>The partitioner over a store of list objects\<close>

text \<open>
  A Python list is a mutable object reached through a reference, and \<open>chunk.extend\<close>
  changes the object in place. To say which objects \<open>write_exports\<close> changes, this second
  model keeps the list objects in a store: a reference is a position in the store, the
  slice \<open>lines[pos:pos + target]\<close> creates a new object at the end of the store, and
  \<open>extend\<close> updates the object its reference names. A reference that names no object
  (which no Python variable does) reads as the empty list.
\<close>

type_synonym ref = nat

definition deref :: "line list list \<Rightarrow> ref \<Rightarrow> line list" where
  "deref h r = (if r < length h then h ! r else [])"

definition list_slice :: "ref \<Rightarrow> nat \<Rightarrow> nat \<Rightarrow> line list list \<Rightarrow> ref \<times> line list list" where
  "list_slice r i j h = (length h, h @ [slice (deref h r) i j])"

definition list_extend :: "ref \<Rightarrow> line list \<Rightarrow> line list list \<Rightarrow> line list list" where
  "list_extend r ys h = h[r := deref h r @ ys]"

record heap_state = loop_state +
  heap :: "line list list"

definition loop_body_heap :: "ref \<Rightarrow> path \<Rightarrow> heap_state \<Rightarrow> heap_state" where
  "loop_body_heap lines export_root s =
     (let target = target_size (index s);
          (chunk, h1) = list_slice lines (pos s) (pos s + target) (heap s);
          pos' = pos s + target;
          pad = (if length (deref h1 chunk) < target
                 then target - length (deref h1 chunk) else 0);
          h2 = (if length (deref h1 chunk) < target
                then list_extend chunk (replicate (target - length (deref h1 chunk)) [newline]) h1
                else h1);
          out = path_join export_root (part_name (index s))
      in \<lparr>index = index s + 1, pos = pos',
          files = files s @ [\<lparr>idx = index s, out_path = out,
                              written = deref h2 chunk, padding = pad\<rparr>],
          heap = h2\<rparr>)"

function write_loop_heap :: "ref \<Rightarrow> path \<Rightarrow> heap_state \<Rightarrow> heap_state" where
  "write_loop_heap lines export_root s =
     (if pos s < length (deref (heap s) lines)
      then write_loop_heap lines export_root (loop_body_heap lines export_root s)
      else s)"
  by pat_completeness auto
termination
proof (relation "measure (\<lambda>(lines, export_root, s). length (deref (heap s) lines) - pos s)")
  show "wf (measure (\<lambda>(lines, export_root, s). length (deref (heap s) lines) - pos s))"
    by simp
next
  fix lines :: ref and export_root :: path and s :: heap_state
  assume run: "pos s < length (deref (heap s) lines)"
  then have valid: "lines < length (heap s)"
    by (auto simp: deref_def split: if_splits)
  then have same: "deref (heap (loop_body_heap lines export_root s)) lines = deref (heap s) lines"
    by (simp add: loop_body_heap_def list_slice_def list_extend_def deref_def Let_def
        nth_append)
  have "pos (loop_body_heap lines export_root s) = pos s + target_size (index s)"
    by (simp add: loop_body_heap_def list_slice_def Let_def)
  moreover have "0 < target_size (index s)"
    by (simp add: target_size_def)
  ultimately show "((lines, export_root, loop_body_heap lines export_root s), (lines, export_root, s))
      \<in> measure (\<lambda>(lines, export_root, s). length (deref (heap s) lines) - pos s)"
    using run same by simp
qed

declare write_loop_heap.simps [simp del]

definition write_exports_heap :: "ref \<Rightarrow> path \<Rightarrow> line list list \<Rightarrow> heap_state" where
  "write_exports_heap lines export_root h =
     write_loop_heap lines export_root \<lparr>index = 1, pos = 0, files = [], heap = h\<rparr>"

subsection \<open>The line collector (\<open>read_all_lines\<close>)\<close>

text \<open>
  What happens when the file at a path is opened and iterated over is given by the
  environment. \<open>open\<close> can raise; when it does not, the text of the file (decoded, with
  the line ends translated to \<open>\n\<close>, as the text layer delivers it) is cut into lines, and
  the iteration either reaches the end of the text or raises after the lines of the text
  delivered until then. An exception is represented by its message, \<open>str(exc)\<close>.
  So \<open>Open_error exc\<close> stands for a failing \<open>open\<close>, \<open>Read_ok content\<close> for a file read to
  its end, and \<open>Read_error content exc\<close> for an iteration that delivers the lines of
  \<open>content\<close> and then raises. The \<open>try\<close> statement of lines 17 to 22 covers both the
  \<open>open\<close> and the iteration.
\<close>

datatype read_outcome =
  Open_error string
  | Read_ok string
  | Read_error string string

text \<open>
  \<open>for line in fh\<close>: every line runs up to and including the next \<open>\n\<close>; text after the last
  \<open>\n\<close>, if there is any, is a last line without one.
\<close>

fun iter_lines :: "string \<Rightarrow> line list" where
  "iter_lines [] = []"
| "iter_lines (c # cs) =
     (if c = newline then [c] # iter_lines cs
      else (case iter_lines cs of [] \<Rightarrow> [[c]] | l # ls \<Rightarrow> (c # l) # ls))"

text \<open>\<open>s.endswith(suffix)\<close>.\<close>

definition endswith :: "string \<Rightarrow> string \<Rightarrow> bool" where
  "endswith s suffix =
     (length suffix \<le> length s \<and> drop (length s - length suffix) s = suffix)"

text \<open>Line 20: \<open>line if line.endswith("\n") else line + "\n"\<close>.\<close>

definition with_newline :: "line \<Rightarrow> line" where
  "with_newline l = (if endswith l [newline] then l else l @ [newline])"

text \<open>Line 16: the header \<open>f"-- {path} --\n"\<close>.\<close>

definition header :: "string \<Rightarrow> line" where
  "header path = ''-- '' @ path @ '' --'' @ [newline]"

text \<open>Line 22: the message \<open>f"Error reading {path}: {exc}"\<close>.\<close>

definition error_message :: "string \<Rightarrow> string \<Rightarrow> string" where
  "error_message path exc = ''Error reading '' @ path @ '': '' @ exc"

text \<open>
  One pass through the body of the loop over \<open>file_list\<close>, lines 16 to 24, on the list
  \<open>lines\<close> and the messages printed so far.
\<close>

definition read_file ::
  "(string \<Rightarrow> read_outcome) \<Rightarrow> string \<Rightarrow> line list \<times> string list \<Rightarrow> line list \<times> string list" where
  "read_file fs path = (\<lambda>(lines, printed).
     let lines1 = lines @ [header path];
         (lines2, printed2) =
           (case fs path of
              Open_error exc \<Rightarrow> (lines1, printed @ [error_message path exc])
            | Read_ok content \<Rightarrow> (lines1 @ map with_newline (iter_lines content), printed)
            | Read_error content exc \<Rightarrow>
                (lines1 @ map with_newline (iter_lines content),
                 printed @ [error_message path exc]))
     in (lines2 @ [[newline]], printed2))"

text \<open>The function returns \<open>lines\<close>; the second component is what it has printed.\<close>

definition read_all_lines ::
  "(string \<Rightarrow> read_outcome) \<Rightarrow> string list \<Rightarrow> line list \<times> string list" where
  "read_all_lines fs file_list = foldl (\<lambda>st path. read_file fs path st) ([], []) file_list"

text \<open>A line ends with exactly one \<open>\n\<close> when it ends with \<open>\n\<close> and not with two of them.\<close>

definition one_trailing_newline :: "line \<Rightarrow> bool" where
  "one_trailing_newline l = (endswith l [newline] \<and> \<not> endswith l [newline, newline])"

text \<open>
  An environment to try the collector on: the file \<open>locked\<close> cannot be opened, reading
  the file \<open>flaky\<close> fails after its first line, and every other file holds two lines, the
  second without a line end.
\<close>

definition example_fs :: "string \<Rightarrow> read_outcome" where
  "example_fs path =
     (if path = ''locked'' then Open_error ''[Errno 13] Permission denied''
      else if path = ''flaky'' then Read_error ''a\<newline>'' ''[Errno 5] Input/output error''
      else Read_ok ''a\<newline>b'')"

section \<open>Properties of the partitioner\<close>

subsection \<open>The loop body and the loop\<close>

lemma target_size_pos: "0 < target_size i"
  by (simp add: target_size_def)

lemma slice_from: "slice xs i (i + n) = take n (drop i xs)"
  by (simp add: slice_def)

lemma loop_body_eq:
  "loop_body lines export_root s =
     \<lparr>index = index s + 1, pos = pos s + target_size (index s),
      files = files s @
        [\<lparr>idx = index s, out_path = path_join export_root (part_name (index s)),
          written = take (target_size (index s)) (drop (pos s) lines)
                    @ replicate (target_size (index s) - (length lines - pos s)) [newline],
          padding = target_size (index s) - (length lines - pos s)\<rparr>]\<rparr>"
  by (auto simp: loop_body_def Let_def slice_from min_def)

lemma write_loop_stop: "\<not> pos s < length lines \<Longrightarrow> write_loop lines export_root s = s"
  by (simp add: write_loop.simps)

lemma write_loop_step:
  "pos s < length lines \<Longrightarrow>
   write_loop lines export_root s = write_loop lines export_root (loop_body lines export_root s)"
  by (subst write_loop.simps) simp

text \<open>
  The rule for the loop: a property that holds on entry and that every pass through the
  body keeps holds on exit, where the loop condition is false.
\<close>

lemma write_loop_invariant:
  assumes "I s"
    and "\<And>t. I t \<Longrightarrow> pos t < length lines \<Longrightarrow> I (loop_body lines export_root t)"
  shows "I (write_loop lines export_root s) \<and> length lines \<le> pos (write_loop lines export_root s)"
  using assms
proof (induction lines export_root s rule: write_loop.induct)
  case (1 lines export_root s)
  show ?case
  proof (cases "pos s < length lines")
    case True
    with "1.prems" have "I (loop_body lines export_root s)"
      by simp
    with True "1.IH" "1.prems"(2) show ?thesis
      by (simp add: write_loop_step)
  next
    case False
    with "1.prems"(1) show ?thesis
      by (simp add: write_loop_stop)
  qed
qed

lemma write_exports_invariant:
  assumes "I \<lparr>index = 1, pos = 0, files = []\<rparr>"
    and "\<And>t. I t \<Longrightarrow> pos t < length lines \<Longrightarrow> I (loop_body lines export_root t)"
  shows "I (write_loop lines export_root \<lparr>index = 1, pos = 0, files = []\<rparr>)"
  using write_loop_invariant [of I, OF assms] by simp

subsection \<open>What the loop writes\<close>

lemma unpadded_concat:
  "concat (map unpadded (write_exports lines export_root)) = lines"
proof -
  let ?I = "\<lambda>s::loop_state. concat (map unpadded (files s)) = take (pos s) lines"
  let ?final = "write_loop lines export_root \<lparr>index = 1, pos = 0, files = []\<rparr>"
  have "?I ?final \<and> length lines \<le> pos ?final"
  proof (rule write_loop_invariant)
    show "?I \<lparr>index = 1, pos = 0, files = []\<rparr>"
      by simp
  next
    fix t :: loop_state
    assume "?I t" and "pos t < length lines"
    then show "?I (loop_body lines export_root t)"
      by (simp add: loop_body_eq unpadded_def min_def take_add)
  qed
  then show ?thesis
    by (simp add: write_exports_def)
qed

lemma padding_tail:
  "\<forall>e\<in>set (write_exports lines export_root).
     written e = unpadded e @ replicate (padding e) [newline]"
  unfolding write_exports_def
  by (rule write_exports_invariant) (auto simp: loop_body_eq unpadded_def min_def)

lemma written_length:
  "\<forall>e\<in>set (write_exports lines export_root). length (written e) = target_size (idx e)"
  unfolding write_exports_def
  by (rule write_exports_invariant) (auto simp: loop_body_eq min_def)

lemma real_line:
  "\<forall>e\<in>set (write_exports lines export_root). unpadded e \<noteq> []"
  unfolding write_exports_def
  by (rule write_exports_invariant) (auto simp: loop_body_eq unpadded_def min_def target_size_def)

lemma idx_run:
  "map idx (write_exports lines export_root) = [1..<Suc (length (write_exports lines export_root))]"
proof -
  let ?I = "\<lambda>s::loop_state. map idx (files s) = [1..<index s] \<and> index s = Suc (length (files s))"
  have "?I (write_loop lines export_root \<lparr>index = 1, pos = 0, files = []\<rparr>)"
    by (rule write_exports_invariant) (auto simp: loop_body_eq)
  then show ?thesis
    by (simp add: write_exports_def)
qed

lemma out_path_name:
  "\<forall>e\<in>set (write_exports lines export_root).
     out_path e = path_join export_root (part_name (idx e))"
  unfolding write_exports_def
  by (rule write_exports_invariant) (auto simp: loop_body_eq)

lemma chunk_count: "length (write_exports lines export_root) \<le> length lines"
proof -
  let ?I = "\<lambda>s::loop_state. length (files s) \<le> pos s \<and> length (files s) \<le> length lines"
  have "?I (write_loop lines export_root \<lparr>index = 1, pos = 0, files = []\<rparr>)"
    by (rule write_exports_invariant) (auto simp: loop_body_eq target_size_def)
  then show ?thesis
    by (simp add: write_exports_def)
qed

lemma part_name_1: "part_name 1 = ''part_001.txt''"
  by code_simp

lemma part_name_2: "part_name 2 = ''part_002.txt''"
  by code_simp

text \<open>An input of at most 225 lines gives one chunk.\<close>

lemma single_chunk:
  assumes "0 < length lines" and "length lines \<le> 225"
  shows "write_exports lines export_root =
    [\<lparr>idx = 1, out_path = path_join export_root ''part_001.txt'',
      written = lines @ replicate (225 - length lines) [newline],
      padding = 225 - length lines\<rparr>]"
proof -
  let ?s0 = "\<lparr>index = 1, pos = 0, files = []\<rparr>"
  let ?s1 = "loop_body lines export_root ?s0"
  have s1: "?s1 = \<lparr>index = 2, pos = 225,
      files = [\<lparr>idx = 1, out_path = path_join export_root (part_name 1),
                written = lines @ replicate (225 - length lines) [newline],
                padding = 225 - length lines\<rparr>]\<rparr>"
    using assms by (simp add: loop_body_eq target_size_def)
  have "write_loop lines export_root ?s0 = write_loop lines export_root ?s1"
    by (rule write_loop_step) (use assms in simp)
  also have "\<dots> = ?s1"
    by (rule write_loop_stop) (use s1 assms in simp)
  finally have "write_exports lines export_root = files ?s1"
    by (simp add: write_exports_def)
  then show ?thesis
    using s1 part_name_1 by simp
qed

text \<open>An input of 226 lines gives two chunks.\<close>

lemma two_chunks:
  assumes "length lines = 226"
  shows "write_exports lines export_root =
    [\<lparr>idx = 1, out_path = path_join export_root ''part_001.txt'',
      written = take 225 lines, padding = 0\<rparr>,
     \<lparr>idx = 2, out_path = path_join export_root ''part_002.txt'',
      written = lines ! 225 # replicate 179 [newline], padding = 179\<rparr>]"
proof -
  let ?s0 = "\<lparr>index = 1, pos = 0, files = []\<rparr>"
  let ?s1 = "loop_body lines export_root ?s0"
  let ?s2 = "loop_body lines export_root ?s1"
  have "225 < length lines"
    using assms by simp
  then have "drop 225 lines = lines ! 225 # drop (Suc 225) lines"
    by (rule Cons_nth_drop_Suc [symmetric])
  moreover have "drop (Suc 225) lines = []"
    using assms by simp
  ultimately have last_line: "drop 225 lines = [lines ! 225]"
    by simp
  have s1: "?s1 = \<lparr>index = 2, pos = 225,
      files = [\<lparr>idx = 1, out_path = path_join export_root (part_name 1),
                written = take 225 lines, padding = 0\<rparr>]\<rparr>"
    using assms by (simp add: loop_body_eq target_size_def)
  have s2: "?s2 = \<lparr>index = 3, pos = 405,
      files = [\<lparr>idx = 1, out_path = path_join export_root (part_name 1),
                written = take 225 lines, padding = 0\<rparr>,
               \<lparr>idx = 2, out_path = path_join export_root (part_name 2),
                written = lines ! 225 # replicate 179 [newline], padding = 179\<rparr>]\<rparr>"
    using assms last_line
    by (simp add: s1 loop_body_eq target_size_def numeral_2_eq_2 [symmetric])
  have "write_loop lines export_root ?s0 = write_loop lines export_root ?s1"
    by (rule write_loop_step) (simp add: assms)
  also have "\<dots> = write_loop lines export_root ?s2"
    by (rule write_loop_step) (use s1 assms in simp)
  also have "\<dots> = ?s2"
    by (rule write_loop_stop) (use s2 assms in simp)
  finally have "write_exports lines export_root = files ?s2"
    by (simp add: write_exports_def)
  then show ?thesis
    using s2 part_name_1 part_name_2 by simp
qed

text \<open>
  The indices, lengths and padding counts of the chunks depend on the number of input
  lines only.
\<close>

lemma shape_by_length:
  "length lines = length lines' \<Longrightarrow> index s = index s' \<Longrightarrow> pos s = pos s' \<Longrightarrow>
   map (\<lambda>e. (idx e, length (written e), padding e)) (files s)
     = map (\<lambda>e. (idx e, length (written e), padding e)) (files s') \<Longrightarrow>
   map (\<lambda>e. (idx e, length (written e), padding e)) (files (write_loop lines export_root s))
     = map (\<lambda>e. (idx e, length (written e), padding e)) (files (write_loop lines' export_root' s'))"
proof (induction lines export_root s arbitrary: s' rule: write_loop.induct)
  case (1 lines export_root s)
  show ?case
  proof (cases "pos s < length lines")
    case True
    then have run': "pos s' < length lines'"
      using "1.prems" by simp
    have "map (\<lambda>e. (idx e, length (written e), padding e))
        (files (write_loop lines export_root (loop_body lines export_root s)))
      = map (\<lambda>e. (idx e, length (written e), padding e))
        (files (write_loop lines' export_root' (loop_body lines' export_root' s')))"
      using True "1.prems" by (intro "1.IH") (simp_all add: loop_body_eq)
    with True run' show ?thesis
      by (simp add: write_loop_step)
  next
    case False
    then have "\<not> pos s' < length lines'"
      using "1.prems" by simp
    with False "1.prems" show ?thesis
      by (simp add: write_loop_stop)
  qed
qed

text \<open>The loop as a \<open>while\<close> loop reaches its end, in the state \<open>write_loop\<close> computes.\<close>

lemma while_terminates:
  "while_option (\<lambda>s. pos s < length lines) (loop_body lines export_root) s
     = Some (write_loop lines export_root s)"
proof (induction lines export_root s rule: write_loop.induct)
  case (1 lines export_root s)
  show ?case
  proof (cases "pos s < length lines")
    case True
    with 1 show ?thesis
      by (subst while_option_unfold) (simp add: write_loop_step)
  next
    case False
    then show ?thesis
      by (subst while_option_unfold) (simp add: write_loop_stop)
  qed
qed

subsection \<open>Inputs that end at a target boundary\<close>

lemma boundary_mono: "k \<le> n \<Longrightarrow> boundary k \<le> boundary n"
  by (induction n) (auto simp: le_Suc_eq)

lemma boundary_less: "k < n \<Longrightarrow> boundary k + target_size (Suc k) \<le> boundary n"
  using boundary_mono [of "Suc k" n] by simp

lemma boundary_strict: "k < n \<Longrightarrow> boundary k < boundary n"
  using boundary_less [of k n] target_size_pos [of "Suc k"] by simp

lemma exact_boundary:
  assumes "length lines = boundary n"
  shows "length (write_exports lines export_root) = n
       \<and> (\<forall>e\<in>set (write_exports lines export_root). padding e = 0)"
proof -
  let ?I = "\<lambda>s::loop_state. length (files s) \<le> n \<and> pos s = boundary (length (files s))
      \<and> index s = Suc (length (files s)) \<and> (\<forall>e\<in>set (files s). padding e = 0)"
  let ?final = "write_loop lines export_root \<lparr>index = 1, pos = 0, files = []\<rparr>"
  have "?I ?final \<and> length lines \<le> pos ?final"
  proof (rule write_loop_invariant)
    show "?I \<lparr>index = 1, pos = 0, files = []\<rparr>"
      by simp
  next
    fix t :: loop_state
    assume inv: "?I t" and run: "pos t < length lines"
    then have "boundary (length (files t)) < boundary n"
      using assms by simp
    then have less: "length (files t) < n"
      using boundary_mono [of n "length (files t)"] by (cases "length (files t) < n") auto
    then have "boundary (length (files t)) + target_size (Suc (length (files t))) \<le> length lines"
      using assms boundary_less by simp
    with inv less show "?I (loop_body lines export_root t)"
      by (auto simp: loop_body_eq)
  qed
  then have inv: "?I ?final" and stop: "boundary n \<le> pos ?final"
    using assms by simp_all
  have "length (files ?final) = n"
  proof (rule ccontr)
    assume "length (files ?final) \<noteq> n"
    with inv have "length (files ?final) < n"
      by simp
    then have "boundary (length (files ?final)) < boundary n"
      by (rule boundary_strict)
    with inv stop show False
      by simp
  qed
  with inv show ?thesis
    by (simp add: write_exports_def)
qed

subsection \<open>File names\<close>

lemma digits_value_snoc: "digits_value (ds @ [c]) = 10 * digits_value ds + (of_char c - 48)"
  by (simp add: digits_value_def)

lemma digits_value_digit: "d < 10 \<Longrightarrow> digits_value [digit_char d] = d"
  by (simp add: digits_value_def digit_char_def)

lemma digits_value_decimal: "digits_value (decimal n) = n"
proof (induction n rule: decimal.induct)
  case (1 n)
  show ?case
  proof (cases "n < 10")
    case True
    then show ?thesis
      by (subst decimal.simps) (simp add: digits_value_digit)
  next
    case False
    have "digits_value [digit_char (n mod 10)] = n mod 10"
      by (rule digits_value_digit) simp
    then have "of_char (digit_char (n mod 10)) - 48 = n mod 10"
      by (simp add: digits_value_def)
    with False 1 show ?thesis
      by (subst decimal.simps) (simp add: digits_value_snoc)
  qed
qed

lemma digits_value_zeros: "digits_value (replicate k CHR ''0'' @ ds) = digits_value ds"
proof -
  have "foldl (\<lambda>acc c. 10 * acc + (of_char c - 48)) 0 (replicate k CHR ''0'') = (0::nat)"
    by (induction k) simp_all
  then show ?thesis
    by (simp add: digits_value_def)
qed

lemma digits_value_format: "digits_value (format_03d n) = n"
  by (simp add: format_03d_def digits_value_zeros digits_value_decimal)

lemma part_name_inj: "part_name m = part_name n \<Longrightarrow> m = n"
proof -
  assume "part_name m = part_name n"
  then have "format_03d m = format_03d n"
    by (simp add: part_name_def)
  then have "digits_value (format_03d m) = digits_value (format_03d n)"
    by simp
  then show ?thesis
    by (simp only: digits_value_format)
qed

lemma digit_char_table: "map digit_char [0..<10] = ''0123456789''"
  by code_simp

lemma digit_char_digit: "d < 10 \<Longrightarrow> digit_char d \<in> set ''0123456789''"
proof -
  assume "d < 10"
  then have "digit_char d \<in> set (map digit_char [0..<10])"
    by (simp del: upt_rec_numeral)
  then show ?thesis
    by (simp only: digit_char_table)
qed

lemma decimal_digits: "set (decimal n) \<subseteq> set ''0123456789''"
proof (induction n rule: decimal.induct)
  case (1 n)
  show ?case
  proof (cases "n < 10")
    case True
    with digit_char_digit [of n] show ?thesis
      by (subst decimal.simps) simp
  next
    case False
    with 1 digit_char_digit [of "n mod 10"] show ?thesis
      by (subst decimal.simps) simp
  qed
qed

lemma format_03d_digits: "set (format_03d n) \<subseteq> set ''0123456789''"
  using decimal_digits [of n] by (auto simp: format_03d_def)

lemma format_03d_length: "3 \<le> length (format_03d n)"
  by (simp add: format_03d_def)

lemma decimal_length3: "n < 1000 \<Longrightarrow> length (decimal n) \<le> 3"
  by (simp add: decimal.simps [of n] decimal.simps [of "n div 10"]
      decimal.simps [of "n div 10 div 10"])

lemma format_03d_length3: "n < 1000 \<Longrightarrow> length (format_03d n) = 3"
  using decimal_length3 [of n] by (simp add: format_03d_def)

lemma out_path_distinct: "distinct (map out_path (write_exports lines export_root))"
proof -
  have "map out_path (write_exports lines export_root)
      = map (\<lambda>i. path_join export_root (part_name i)) (map idx (write_exports lines export_root))"
    using out_path_name [of lines export_root] by simp
  also have "\<dots> = map (\<lambda>i. path_join export_root (part_name i))
      [1..<Suc (length (write_exports lines export_root))]"
    by (simp only: idx_run [symmetric])
  finally show ?thesis
    by (auto simp: distinct_map inj_on_def path_join_def dest: part_name_inj)
qed

section \<open>Properties of the partitioner over the store\<close>

text \<open>
  One pass through the body over the store does what the body over values does on the
  list the reference names, and puts the chunk it has written at the end of the store.
\<close>

lemma loop_body_heap_eq:
  "loop_body_heap l export_root s =
     (let b = loop_body (deref (heap s) l) export_root
                \<lparr>index = index s, pos = pos s, files = files s\<rparr>
      in \<lparr>index = index b, pos = pos b, files = files b,
          heap = heap s @ [written (last (files b))]\<rparr>)"
  by (simp add: loop_body_heap_def loop_body_def list_slice_def list_extend_def deref_def Let_def)

lemma write_loop_heap_stop:
  "\<not> pos s < length (deref (heap s) l) \<Longrightarrow> write_loop_heap l export_root s = s"
  by (simp add: write_loop_heap.simps)

lemma write_loop_heap_step:
  "pos s < length (deref (heap s) l) \<Longrightarrow>
   write_loop_heap l export_root s = write_loop_heap l export_root (loop_body_heap l export_root s)"
  by (subst write_loop_heap.simps) simp

lemma deref_loop_body_heap:
  "l < length (heap s) \<Longrightarrow> deref (heap (loop_body_heap l export_root s)) l = deref (heap s) l"
  by (simp add: loop_body_heap_eq Let_def deref_def nth_append)

text \<open>
  The loop leaves every object that was in the store on entry as it was, and writes the
  files the loop over values writes for the list the reference names.
\<close>

lemma write_loop_heap_frame:
  "take (length (heap s)) (heap (write_loop_heap l export_root s)) = heap s
   \<and> files (write_loop_heap l export_root s)
       = files (write_loop (deref (heap s) l) export_root
                  \<lparr>index = index s, pos = pos s, files = files s\<rparr>)"
proof (induction l export_root s rule: write_loop_heap.induct)
  case (1 l export_root s)
  let ?t = "loop_body_heap l export_root s"
  let ?p = "\<lparr>index = index s, pos = pos s, files = files s\<rparr>"
  show ?case
  proof (cases "pos s < length (deref (heap s) l)")
    case True
    then have valid: "l < length (heap s)"
      by (auto simp: deref_def split: if_splits)
    have same: "deref (heap ?t) l = deref (heap s) l"
      using valid by (rule deref_loop_body_heap)
    have t: "\<lparr>index = index ?t, pos = pos ?t, files = files ?t\<rparr>
        = loop_body (deref (heap s) l) export_root ?p"
      by (simp add: loop_body_heap_eq Let_def)
    have grow: "heap ?t = heap s @ [written (last (files ?t))]"
      by (simp add: loop_body_heap_eq Let_def)
    from "1.IH" [OF True]
    have frame: "take (length (heap ?t)) (heap (write_loop_heap l export_root ?t)) = heap ?t"
      and out: "files (write_loop_heap l export_root ?t)
        = files (write_loop (deref (heap ?t) l) export_root
                   \<lparr>index = index ?t, pos = pos ?t, files = files ?t\<rparr>)"
      by simp_all
    have "take (length (heap s)) (heap (write_loop_heap l export_root ?t))
        = take (length (heap s))
            (take (length (heap ?t)) (heap (write_loop_heap l export_root ?t)))"
      by (simp add: grow min_def)
    also have "\<dots> = heap s"
      by (simp only: frame) (simp add: grow)
    finally have one: "take (length (heap s)) (heap (write_loop_heap l export_root ?t)) = heap s" .
    have two: "files (write_loop_heap l export_root ?t)
        = files (write_loop (deref (heap s) l) export_root ?p)"
      using True by (simp add: out same t write_loop_step [of ?p])
    from one two True show ?thesis
      by (simp add: write_loop_heap_step)
  next
    case False
    then show ?thesis
      by (simp add: write_loop_heap_stop write_loop_stop)
  qed
qed

section \<open>Properties of the line collector\<close>

subsection \<open>One file after the other\<close>

lemma read_file_from:
  "read_file fs p (ls, pr) =
     (ls @ fst (read_file fs p ([], [])), pr @ snd (read_file fs p ([], [])))"
  by (cases "fs p") (simp_all add: read_file_def)

lemma read_all_lines_single: "read_all_lines fs [p] = read_file fs p ([], [])"
  by (simp add: read_all_lines_def)

lemma foldl_read_file:
  "foldl (\<lambda>st path. read_file fs path st) (ls, pr) ps =
     (ls @ fst (read_all_lines fs ps), pr @ snd (read_all_lines fs ps))"
proof (induction ps arbitrary: ls pr)
  case Nil
  show ?case
    by (simp add: read_all_lines_def)
next
  case (Cons p ps)
  let ?a = "fst (read_file fs p ([], []))" and ?b = "snd (read_file fs p ([], []))"
  have "foldl (\<lambda>st path. read_file fs path st) (ls, pr) (p # ps)
      = foldl (\<lambda>st path. read_file fs path st) (ls @ ?a, pr @ ?b) ps"
    by (simp add: read_file_from [of fs p ls pr])
  also have "\<dots> = (ls @ ?a @ fst (read_all_lines fs ps), pr @ ?b @ snd (read_all_lines fs ps))"
    by (simp add: Cons.IH)
  finally have left: "foldl (\<lambda>st path. read_file fs path st) (ls, pr) (p # ps)
      = (ls @ ?a @ fst (read_all_lines fs ps), pr @ ?b @ snd (read_all_lines fs ps))" .
  have "read_all_lines fs (p # ps) = foldl (\<lambda>st path. read_file fs path st) (?a, ?b) ps"
    by (simp add: read_all_lines_def)
  also have "\<dots> = (?a @ fst (read_all_lines fs ps), ?b @ snd (read_all_lines fs ps))"
    by (simp only: Cons.IH append_Nil)
  finally show ?case
    using left by simp
qed

lemma read_all_lines_append:
  "read_all_lines fs (ps @ qs) =
     (fst (read_all_lines fs ps) @ fst (read_all_lines fs qs),
      snd (read_all_lines fs ps) @ snd (read_all_lines fs qs))"
proof -
  have "read_all_lines fs (ps @ qs)
      = foldl (\<lambda>st path. read_file fs path st) (read_all_lines fs ps) qs"
    by (simp add: read_all_lines_def)
  also have "\<dots> = foldl (\<lambda>st path. read_file fs path st)
      (fst (read_all_lines fs ps), snd (read_all_lines fs ps)) qs"
    by simp
  finally show ?thesis
    by (simp only: foldl_read_file)
qed

lemma read_all_lines_Cons:
  "read_all_lines fs (p # ps) =
     (fst (read_all_lines fs [p]) @ fst (read_all_lines fs ps),
      snd (read_all_lines fs [p]) @ snd (read_all_lines fs ps))"
  using read_all_lines_append [of fs "[p]" ps] by simp

lemma read_open_error:
  "fs p = Open_error exc \<Longrightarrow>
   read_all_lines fs [p] = ([header p, [newline]], [error_message p exc])"
  by (simp add: read_all_lines_single read_file_def)

lemma read_read_error:
  "fs p = Read_error content exc \<Longrightarrow>
   read_all_lines fs [p] =
     (header p # map with_newline (iter_lines content) @ [[newline]], [error_message p exc])"
  by (simp add: read_all_lines_single read_file_def)

lemma read_ok:
  "fs p = Read_ok content \<Longrightarrow>
   read_all_lines fs [p] = (header p # map with_newline (iter_lines content) @ [[newline]], [])"
  by (simp add: read_all_lines_single read_file_def)

lemma read_block:
  "\<exists>content.
     fst (read_all_lines fs [p]) = header p # map with_newline (iter_lines content) @ [[newline]]"
proof (cases "fs p")
  case (Open_error exc)
  then have "fst (read_all_lines fs [p])
      = header p # map with_newline (iter_lines []) @ [[newline]]"
    by (simp add: read_open_error)
  then show ?thesis ..
next
  case (Read_ok content)
  then have "fst (read_all_lines fs [p])
      = header p # map with_newline (iter_lines content) @ [[newline]]"
    by (simp add: read_ok)
  then show ?thesis ..
next
  case (Read_error content exc)
  then have "fst (read_all_lines fs [p])
      = header p # map with_newline (iter_lines content) @ [[newline]]"
    by (simp add: read_read_error)
  then show ?thesis ..
qed

subsection \<open>Line ends\<close>

lemma endswith_iff: "endswith s suffix \<longleftrightarrow> (\<exists>pre. s = pre @ suffix)"
proof
  assume "endswith s suffix"
  then have "s = take (length s - length suffix) s @ suffix"
    by (metis append_take_drop_id endswith_def)
  then show "\<exists>pre. s = pre @ suffix" ..
next
  assume "\<exists>pre. s = pre @ suffix"
  then show "endswith s suffix"
    by (auto simp: endswith_def)
qed

lemma endswith_snoc: "endswith (xs @ [a]) [c] \<longleftrightarrow> a = c"
  by (simp add: endswith_def)

lemma endswith_snoc2: "endswith (xs @ [a, b]) [c, d] \<longleftrightarrow> a = c \<and> b = d"
  by (simp add: endswith_def)

text \<open>A line of the iteration is not empty and has no \<open>\n\<close> before its last character.\<close>

lemma iter_lines_line:
  "\<forall>l\<in>set (iter_lines t). l \<noteq> [] \<and> newline \<notin> set (butlast l)"
  by (induction t rule: iter_lines.induct) (auto split: list.splits if_splits)

lemma iter_lines_concat: "concat (iter_lines t) = t"
  by (induction t rule: iter_lines.induct) (auto split: list.splits)

lemma with_newline_one:
  assumes "newline \<notin> set (butlast l)"
  shows "one_trailing_newline (with_newline l)"
proof (cases "endswith l [newline]")
  case True
  have "\<not> endswith l [newline, newline]"
  proof
    assume "endswith l [newline, newline]"
    then obtain pre where "l = pre @ [newline, newline]"
      by (auto simp: endswith_iff)
    then have "butlast l = pre @ [newline]"
      by (simp add: butlast_append)
    with assms show False
      by simp
  qed
  with True show ?thesis
    by (simp add: one_trailing_newline_def with_newline_def)
next
  case False
  have "endswith (l @ [newline]) [newline]"
    by (simp add: endswith_snoc)
  moreover have "\<not> endswith (l @ [newline]) [newline, newline]"
  proof
    assume "endswith (l @ [newline]) [newline, newline]"
    then obtain pre where "l @ [newline] = pre @ [newline, newline]"
      by (auto simp: endswith_iff)
    then have "l @ [newline] = (pre @ [newline]) @ [newline]"
      by simp
    then have "l = pre @ [newline]"
      by (simp only: append_same_eq)
    with False show False
      by (simp add: endswith_snoc)
  qed
  ultimately show ?thesis
    using False by (simp add: one_trailing_newline_def with_newline_def)
qed

lemma header_one: "one_trailing_newline (header p)"
proof -
  have "header p = (''-- '' @ p @ '' -'') @ [CHR ''-'', newline]"
    by (simp add: header_def)
  then have "\<not> endswith (header p) [newline, newline]"
    by (simp only: endswith_snoc2) simp
  moreover have "header p = (''-- '' @ p @ '' --'') @ [newline]"
    by (simp add: header_def)
  then have "endswith (header p) [newline]"
    by (simp only: endswith_snoc)
  ultimately show ?thesis
    by (simp add: one_trailing_newline_def)
qed

lemma separator_one: "one_trailing_newline [newline]"
  by (simp add: one_trailing_newline_def endswith_def)

lemma all_lines_one: "\<forall>l\<in>set (fst (read_all_lines fs file_list)). one_trailing_newline l"
proof (induction file_list)
  case Nil
  show ?case
    by (simp add: read_all_lines_def)
next
  case (Cons p ps)
  obtain content where block: "fst (read_all_lines fs [p])
      = header p # map with_newline (iter_lines content) @ [[newline]]"
    using read_block by blast
  have "\<forall>l\<in>set (fst (read_all_lines fs [p])). one_trailing_newline l"
    using iter_lines_line [of content]
    by (auto simp: block header_one separator_one with_newline_one)
  with Cons show ?case
    by (auto simp: read_all_lines_Cons [of fs p ps])
qed

section \<open>The claims about the partitioner\<close>

text \<open>
  C1. Concatenating the lines of all chunks, each without its padding lines, gives the
  input list back, in order. The second part says what "without its padding lines" takes
  away: every written chunk is its input lines followed by \<open>padding\<close> lines that are each
  \<open>\n\<close>. The statement holds for the empty input too.
\<close>

theorem C1_chunks_reproduce_lines:
  "concat (map unpadded (write_exports lines export_root)) = lines
   \<and> (\<forall>e\<in>set (write_exports lines export_root).
         written e = unpadded e @ replicate (padding e) [newline])"
  using unpadded_concat [of lines export_root] padding_tail [of lines export_root] by simp

theorem C1_chunks_reproduce_lines_witness:
  "[''a\<newline>'', ''\<newline>''] \<noteq> []
   \<and> concat (map unpadded (write_exports [''a\<newline>'', ''\<newline>''] [''export'']))
       = [''a\<newline>'', ''\<newline>'']
   \<and> hd (write_exports [''a\<newline>'', ''\<newline>''] [''export''])
       \<in> set (write_exports [''a\<newline>'', ''\<newline>''] [''export''])
   \<and> written (hd (write_exports [''a\<newline>'', ''\<newline>''] [''export'']))
       = [''a\<newline>'', ''\<newline>''] @ replicate 223 ''\<newline>''"
proof -
  let ?evs = "write_exports [''a\<newline>'', ''\<newline>''] [''export'']"
  have evs: "?evs = [\<lparr>idx = 1, out_path = path_join [''export''] ''part_001.txt'',
      written = [''a\<newline>'', ''\<newline>''] @ replicate 223 ''\<newline>'', padding = 223\<rparr>]"
    by (simp add: single_chunk)
  then have mem: "hd ?evs \<in> set ?evs"
    by simp
  from C1_chunks_reproduce_lines [of "[''a\<newline>'', ''\<newline>'']" "[''export'']"]
  have all: "concat (map unpadded ?evs) = [''a\<newline>'', ''\<newline>'']"
    and tail: "written (hd ?evs) = unpadded (hd ?evs) @ replicate (padding (hd ?evs)) [newline]"
    using mem by simp_all
  have "unpadded (hd ?evs) = [''a\<newline>'', ''\<newline>'']"
    using all evs by simp
  with tail have "written (hd ?evs) = [''a\<newline>'', ''\<newline>''] @ replicate 223 ''\<newline>''"
    using evs by simp
  with all mem show ?thesis
    by simp
qed

text \<open>
  C2. Every chunk written has exactly as many lines as the target of its index; the chunk
  at position \<open>k\<close> of the output (counted from 0) has index \<open>k + 1\<close>.
\<close>

theorem C2_chunk_length_is_target:
  "(\<forall>e\<in>set (write_exports lines export_root). length (written e) = target_size (idx e))
   \<and> (\<forall>k<length (write_exports lines export_root).
         idx (write_exports lines export_root ! k) = Suc k
         \<and> length (written (write_exports lines export_root ! k)) = target_size (Suc k))"
proof -
  let ?evs = "write_exports lines export_root"
  have len: "\<forall>e\<in>set ?evs. length (written e) = target_size (idx e)"
    by (rule written_length)
  have "idx (?evs ! k) = Suc k" if "k < length ?evs" for k
  proof -
    from that have "idx (?evs ! k) = map idx ?evs ! k"
      by simp
    also have "\<dots> = [1..<Suc (length ?evs)] ! k"
      by (simp only: idx_run [symmetric])
    also have "\<dots> = Suc k"
      using that by (simp del: upt_Suc)
    finally show ?thesis .
  qed
  with len show ?thesis
    by simp
qed

theorem C2_chunk_length_is_target_witness:
  "(1::nat) < length (write_exports (replicate 226 ''x\<newline>'') [''export''])
   \<and> idx (write_exports (replicate 226 ''x\<newline>'') [''export''] ! 1) = 2
   \<and> length (written (write_exports (replicate 226 ''x\<newline>'') [''export''] ! 1)) = 180"
proof -
  let ?evs = "write_exports (replicate 226 ''x\<newline>'') [''export'']"
  have len: "length ?evs = 2"
    by (simp add: two_chunks)
  with C2_chunk_length_is_target [of "replicate 226 ''x\<newline>''" "[''export'']"]
  have "idx (?evs ! 1) = Suc 1 \<and> length (written (?evs ! 1)) = target_size (Suc 1)"
    by simp
  with len show ?thesis
    by (simp add: target_size_def)
qed

text \<open>
  C3. The target is 225 for an odd index and 180 for an even one, so an odd-indexed chunk
  is larger than an even-indexed one; the lengths of the chunks written are these
  targets, in the order 225, 180, 225, ...; and two inputs with the same number of lines
  give chunks with the same indices and lengths, whatever the lines contain.
\<close>

theorem C3_target_alternates_by_parity:
  "target_size i = (if odd i then 225 else 180)
   \<and> target_size (2 * k) < target_size (2 * j + 1)
   \<and> map (\<lambda>e. length (written e)) (write_exports lines export_root)
       = map (\<lambda>i. if odd i then 225 else 180)
           [1..<Suc (length (write_exports lines export_root))]
   \<and> (length lines = length lines' \<longrightarrow>
        map (\<lambda>e. (idx e, length (written e))) (write_exports lines export_root)
        = map (\<lambda>e. (idx e, length (written e))) (write_exports lines' export_root'))"
proof -
  let ?evs = "write_exports lines export_root"
  have parity: "target_size i = (if odd i then 225 else 180)" for i
    by (simp add: target_size_def odd_iff_mod_2_eq_one)
  have "map (\<lambda>e. length (written e)) ?evs = map (\<lambda>e. target_size (idx e)) ?evs"
    using written_length [of lines export_root] by simp
  also have "\<dots> = map target_size (map idx ?evs)"
    by simp
  also have "\<dots> = map target_size [1..<Suc (length ?evs)]"
    by (simp only: idx_run [symmetric])
  finally have lens: "map (\<lambda>e. length (written e)) ?evs
      = map (\<lambda>i. if odd i then 225 else 180) [1..<Suc (length ?evs)]"
    by (simp add: parity)
  have same: "map (\<lambda>e. (idx e, length (written e))) ?evs
      = map (\<lambda>e. (idx e, length (written e))) (write_exports lines' export_root')"
    if "length lines = length lines'"
  proof -
    let ?s0 = "\<lparr>index = 1, pos = 0, files = []\<rparr>"
    have "map (\<lambda>e. (idx e, length (written e), padding e)) (files (write_loop lines export_root ?s0))
        = map (\<lambda>e. (idx e, length (written e), padding e)) (files (write_loop lines' export_root' ?s0))"
      using that by (intro shape_by_length) simp_all
    then have "map (\<lambda>t. (fst t, fst (snd t))) (map (\<lambda>e. (idx e, length (written e), padding e)) ?evs)
        = map (\<lambda>t. (fst t, fst (snd t)))
            (map (\<lambda>e. (idx e, length (written e), padding e)) (write_exports lines' export_root'))"
      by (simp only: write_exports_def)
    then show ?thesis
      by (simp add: comp_def)
  qed
  from lens same show ?thesis
    by (simp add: parity)
qed

theorem C3_target_alternates_by_parity_witness:
  "length (replicate 226 ''x\<newline>'') = length (replicate 226 ''\<newline>'')
   \<and> map (\<lambda>e. (idx e, length (written e))) (write_exports (replicate 226 ''x\<newline>'') [''export''])
       = map (\<lambda>e. (idx e, length (written e))) (write_exports (replicate 226 ''\<newline>'') [''out''])
   \<and> map (\<lambda>e. length (written e)) (write_exports (replicate 226 ''x\<newline>'') [''export''])
       = [225, 180]"
proof -
  have eq: "length (replicate 226 ''x\<newline>'') = length (replicate 226 ''\<newline>'')"
    by simp
  have len: "length (write_exports (replicate 226 ''x\<newline>'') [''export'']) = 2"
    by (simp add: two_chunks)
  have upt: "[1..<Suc 2] = [1, 2]"
    by (simp add: upt_rec)
  from C3_target_alternates_by_parity
    [of _ _ _ "replicate 226 ''x\<newline>''" "[''export'']" "replicate 226 ''\<newline>''" "[''out'']"]
  show ?thesis
    using eq upt by (simp add: len)
qed

text \<open>
  C4. An input of 226 lines, one more than the odd target 225, gives exactly two chunks:
  the first 225 input lines without padding, then the last input line followed by
  179 padding lines, one less than the even target 180, each of them \<open>\n\<close>.
\<close>

theorem C4_one_line_over_odd_target:
  "length lines = target_size 1 + 1 \<Longrightarrow>
   target_size 1 = 225 \<and> target_size 2 = 180
   \<and> write_exports lines export_root =
       [\<lparr>idx = 1, out_path = path_join export_root ''part_001.txt'',
         written = take (target_size 1) lines, padding = 0\<rparr>,
        \<lparr>idx = 2, out_path = path_join export_root ''part_002.txt'',
         written = lines ! target_size 1 # replicate (target_size 2 - 1) [newline],
         padding = target_size 2 - 1\<rparr>]"
proof -
  assume "length lines = target_size 1 + 1"
  moreover have t: "target_size 1 = 225" "target_size 2 = 180"
    by (simp_all add: target_size_def)
  ultimately have "length lines = 226"
    by simp
  from two_chunks [OF this, of export_root] t show ?thesis
    by simp
qed

theorem C4_one_line_over_odd_target_witness:
  "length (replicate 225 ''x\<newline>'' @ [''last\<newline>'']) = target_size 1 + 1
   \<and> write_exports (replicate 225 ''x\<newline>'' @ [''last\<newline>'']) [''export''] =
       [\<lparr>idx = 1, out_path = [''export'', ''part_001.txt''],
         written = replicate 225 ''x\<newline>'', padding = 0\<rparr>,
        \<lparr>idx = 2, out_path = [''export'', ''part_002.txt''],
         written = ''last\<newline>'' # replicate 179 ''\<newline>'', padding = 179\<rparr>]"
proof -
  have len: "length (replicate 225 ''x\<newline>'' @ [''last\<newline>'']) = target_size 1 + 1"
    by (simp add: target_size_def)
  have t: "target_size 1 = 225" "target_size 2 = 180"
    by (simp_all add: target_size_def)
  from C4_one_line_over_odd_target [OF len, of "[''export'']"] len t show ?thesis
    by (simp add: path_join_def nth_append)
qed

text \<open>
  C5. The loop terminates from every state: run as a \<open>while\<close> loop (whose value is \<open>None\<close>
  when it runs forever) it ends in the state \<open>write_loop\<close> computes, where \<open>pos\<close> has
  reached the length of the input. Every pass through the body increases \<open>pos\<close>, and there
  are at most as many passes as input lines. For the empty input the body never runs
  (the loop returns the state it was entered in) and nothing is written; an empty file
  list gives the empty input.
\<close>

theorem C5_loop_terminates:
  "while_option (\<lambda>s. pos s < length lines) (loop_body lines export_root) s
     = Some (write_loop lines export_root s)
   \<and> length lines \<le> pos (write_loop lines export_root s)
   \<and> pos s < pos (loop_body lines export_root s)
   \<and> length (write_exports lines export_root) \<le> length lines
   \<and> write_loop [] export_root s = s
   \<and> write_exports [] export_root = []
   \<and> write_exports (fst (read_all_lines fs [])) export_root = []"
proof -
  have "length lines \<le> pos (write_loop lines export_root s)"
    using write_loop_invariant [of "\<lambda>_. True" s lines export_root] by simp
  moreover have "pos s < pos (loop_body lines export_root s)"
    by (simp add: loop_body_eq target_size_pos)
  moreover have "write_loop [] export_root s = s"
    by (simp add: write_loop_stop)
  moreover have "write_exports [] export_root = []"
    by (simp add: write_exports_def write_loop_stop)
  moreover have "write_exports (fst (read_all_lines fs [])) export_root = []"
    by (simp add: read_all_lines_def write_exports_def write_loop_stop)
  ultimately show ?thesis
    using while_terminates [of lines export_root s] chunk_count [of lines export_root]
    by simp
qed

text \<open>
  C6. No chunk consists of padding only: every chunk written holds at least one input
  line. An input whose length is a running target boundary, the sum of the first \<open>n\<close>
  targets, gives exactly \<open>n\<close> chunks, none of them padded; in particular an input of
  exactly 225 lines gives the one chunk with index 1, which is the input itself.
\<close>

theorem C6_no_chunk_of_padding_only:
  "(\<forall>e\<in>set (write_exports lines export_root). unpadded e \<noteq> [])
   \<and> (length lines = boundary n \<longrightarrow>
        length (write_exports lines export_root) = n
        \<and> (\<forall>e\<in>set (write_exports lines export_root). padding e = 0))
   \<and> (length lines = target_size 1 \<longrightarrow>
        write_exports lines export_root =
          [\<lparr>idx = 1, out_path = path_join export_root ''part_001.txt'',
            written = lines, padding = 0\<rparr>])"
proof -
  have "write_exports lines export_root =
      [\<lparr>idx = 1, out_path = path_join export_root ''part_001.txt'', written = lines, padding = 0\<rparr>]"
    if "length lines = target_size 1"
  proof -
    from that have "length lines = 225"
      by (simp add: target_size_def)
    then show ?thesis
      by (simp add: single_chunk)
  qed
  then show ?thesis
    using real_line [of lines export_root] exact_boundary [of lines n export_root] by blast
qed

theorem C6_no_chunk_of_padding_only_witness:
  "length (replicate 225 ''x\<newline>'') = target_size 1
   \<and> length (replicate 225 ''x\<newline>'') = boundary 1
   \<and> write_exports (replicate 225 ''x\<newline>'') [''export''] =
       [\<lparr>idx = 1, out_path = [''export'', ''part_001.txt''],
         written = replicate 225 ''x\<newline>'', padding = 0\<rparr>]
   \<and> length (write_exports (replicate 225 ''x\<newline>'') [''export'']) = 1
   \<and> unpadded (hd (write_exports (replicate 225 ''x\<newline>'') [''export''])) \<noteq> []"
proof -
  let ?lines = "replicate 225 ''x\<newline>''"
  have len: "length ?lines = target_size 1" "length ?lines = boundary 1"
    by (simp_all add: target_size_def)
  from C6_no_chunk_of_padding_only [of ?lines "[''export'']" 1] len
  have evs: "write_exports ?lines [''export''] =
      [\<lparr>idx = 1, out_path = path_join [''export''] ''part_001.txt'', written = ?lines, padding = 0\<rparr>]"
    and real: "\<forall>e\<in>set (write_exports ?lines [''export'']). unpadded e \<noteq> []"
    by blast+
  from real evs have "unpadded (hd (write_exports ?lines [''export''])) \<noteq> []"
    by simp
  with evs len show ?thesis
    by (simp add: path_join_def)
qed

text \<open>
  C7. The indices of the chunks written are 1, 2, 3, ... up to their number, and the chunk
  with index \<open>i\<close> goes to the file \<open>part_\<close>, then \<open>i\<close> in decimal with zeros in front up to
  three digits, then \<open>.txt\<close>, in the export directory: \<open>part_001.txt\<close>, \<open>part_002.txt\<close>, ...
  The number in the name has at least three characters, all digits, and reads back as
  \<open>i\<close>; so no two chunks go to the same file.
\<close>

theorem C7_contiguous_indices_and_names:
  "map idx (write_exports lines export_root)
     = [1..<Suc (length (write_exports lines export_root))]
   \<and> (\<forall>e\<in>set (write_exports lines export_root).
         out_path e = path_join export_root (''part_'' @ format_03d (idx e) @ ''.txt''))
   \<and> distinct (map out_path (write_exports lines export_root))
   \<and> 3 \<le> length (format_03d i)
   \<and> set (format_03d i) \<subseteq> set ''0123456789''
   \<and> digits_value (format_03d i) = i
   \<and> (i < 1000 \<longrightarrow> length (format_03d i) = 3)
   \<and> part_name 1 = ''part_001.txt'' \<and> part_name 2 = ''part_002.txt''"
proof -
  have "\<forall>e\<in>set (write_exports lines export_root).
      out_path e = path_join export_root (''part_'' @ format_03d (idx e) @ ''.txt'')"
    using out_path_name [of lines export_root] by (simp add: part_name_def)
  then show ?thesis
    using idx_run [of lines export_root] out_path_distinct [of lines export_root]
      format_03d_length [of i] format_03d_digits [of i] digits_value_format [of i]
      format_03d_length3 [of i] part_name_1 part_name_2
    by blast
qed

theorem C7_contiguous_indices_and_names_witness:
  "map idx (write_exports (replicate 226 ''x\<newline>'') [''export'']) = [1, 2]
   \<and> write_exports (replicate 226 ''x\<newline>'') [''export''] ! 1
       \<in> set (write_exports (replicate 226 ''x\<newline>'') [''export''])
   \<and> out_path (write_exports (replicate 226 ''x\<newline>'') [''export''] ! 1)
       = [''export'', ''part_002.txt'']
   \<and> (12::nat) < 1000 \<and> length (format_03d 12) = 3"
proof -
  let ?evs = "write_exports (replicate 226 ''x\<newline>'') [''export'']"
  have len: "length ?evs = 2"
    by (simp add: two_chunks)
  then have mem: "?evs ! 1 \<in> set ?evs"
    by simp
  have two: "idx (?evs ! 1) = 2"
    by (simp add: two_chunks)
  have name: "''part_'' @ format_03d 2 @ ''.txt'' = ''part_002.txt''"
    using part_name_2 by (simp add: part_name_def)
  have upt: "[1..<Suc 2] = [1, 2]"
    by (simp add: upt_rec)
  from C7_contiguous_indices_and_names [of "replicate 226 ''x\<newline>''" "[''export'']" 12]
  have run: "map idx ?evs = [1..<Suc (length ?evs)]"
    and out: "out_path (?evs ! 1) = path_join [''export''] (''part_'' @ format_03d (idx (?evs ! 1)) @ ''.txt'')"
    and three: "length (format_03d 12) = 3"
    using mem by simp_all
  from out have "out_path (?evs ! 1) = [''export'', ''part_002.txt'']"
    by (simp only: two name) (simp add: path_join_def)
  with run mem three upt show ?thesis
    by (simp add: len)
qed

section \<open>The claims about the line collector\<close>

text \<open>
  C8, as the code has it. The lines and messages of a file list are those of its files
  one after the other, so a failure on one file leaves the files after it as they are.
  A file that cannot be opened gives its header line and the separator line \<open>\n\<close> and no
  other line, and one message that names it and the cause. A file whose reading fails
  later gives its header, the lines read before the failure, and the separator, with the
  same message. Whatever happens, the lines of a file start with its header and end with
  the separator.
\<close>

theorem C8_unreadable_file_header_and_separator:
  "read_all_lines fs (ps @ p # qs) =
     (fst (read_all_lines fs ps) @ fst (read_all_lines fs [p]) @ fst (read_all_lines fs qs),
      snd (read_all_lines fs ps) @ snd (read_all_lines fs [p]) @ snd (read_all_lines fs qs))
   \<and> (fs p = Open_error exc \<longrightarrow>
        read_all_lines fs [p] = ([header p, [newline]], [error_message p exc]))
   \<and> (fs p = Read_error content exc \<longrightarrow>
        read_all_lines fs [p] =
          (header p # map with_newline (iter_lines content) @ [[newline]],
           [error_message p exc]))
   \<and> (\<exists>ls. fst (read_all_lines fs [p]) = header p # ls @ [[newline]])"
proof -
  have "read_all_lines fs (ps @ p # qs) =
      (fst (read_all_lines fs ps) @ fst (read_all_lines fs (p # qs)),
       snd (read_all_lines fs ps) @ snd (read_all_lines fs (p # qs)))"
    by (rule read_all_lines_append)
  then have seq: "read_all_lines fs (ps @ p # qs) =
     (fst (read_all_lines fs ps) @ fst (read_all_lines fs [p]) @ fst (read_all_lines fs qs),
      snd (read_all_lines fs ps) @ snd (read_all_lines fs [p]) @ snd (read_all_lines fs qs))"
    by (simp add: read_all_lines_Cons [of fs p qs])
  have "\<exists>ls. fst (read_all_lines fs [p]) = header p # ls @ [[newline]]"
    using read_block [of fs p] by blast
  with seq show ?thesis
    by (simp add: read_open_error read_read_error)
qed

theorem C8_unreadable_file_header_and_separator_witness:
  "example_fs ''locked'' = Open_error ''[Errno 13] Permission denied''
   \<and> read_all_lines example_fs [''locked''] =
       ([''-- locked --\<newline>'', ''\<newline>''],
        [''Error reading locked: [Errno 13] Permission denied''])
   \<and> example_fs ''flaky'' = Read_error ''a\<newline>'' ''[Errno 5] Input/output error''
   \<and> read_all_lines example_fs [''flaky''] =
       ([''-- flaky --\<newline>'', ''a\<newline>'', ''\<newline>''],
        [''Error reading flaky: [Errno 5] Input/output error''])
   \<and> fst (read_all_lines example_fs ([''locked''] @ ''x'' # [])) =
       [''-- locked --\<newline>'', ''\<newline>'', ''-- x --\<newline>'', ''a\<newline>'', ''b\<newline>'', ''\<newline>'']"
proof -
  have locked: "example_fs ''locked'' = Open_error ''[Errno 13] Permission denied''"
    and flaky: "example_fs ''flaky'' = Read_error ''a\<newline>'' ''[Errno 5] Input/output error''"
    and x: "example_fs ''x'' = Read_ok ''a\<newline>b''"
    by (simp_all add: example_fs_def)
  from C8_unreadable_file_header_and_separator
    [of example_fs "[]" "''locked''" "[]" "''[Errno 13] Permission denied''"] locked
  have one: "read_all_lines example_fs [''locked''] =
      ([header ''locked'', [newline]],
       [error_message ''locked'' ''[Errno 13] Permission denied''])"
    by blast
  from C8_unreadable_file_header_and_separator
    [of example_fs "[]" "''flaky''" "[]" "''[Errno 5] Input/output error''" "''a\<newline>''"] flaky
  have two: "read_all_lines example_fs [''flaky''] =
      (header ''flaky'' # map with_newline (iter_lines ''a\<newline>'') @ [[newline]],
       [error_message ''flaky'' ''[Errno 5] Input/output error''])"
    by blast
  from C8_unreadable_file_header_and_separator [of example_fs "[''locked'']" "''x''" "[]"]
  have three: "fst (read_all_lines example_fs ([''locked''] @ ''x'' # [])) =
      fst (read_all_lines example_fs [''locked'']) @ fst (read_all_lines example_fs [''x''])
        @ fst (read_all_lines example_fs [])"
    by simp
  have "fst (read_all_lines example_fs [''x'']) = [''-- x --\<newline>'', ''a\<newline>'', ''b\<newline>'', ''\<newline>'']"
    using read_ok [of example_fs "''x''", OF x]
    by (simp add: header_def with_newline_def endswith_def)
  moreover have "fst (read_all_lines example_fs []) = []"
    by (simp add: read_all_lines_def)
  ultimately have "fst (read_all_lines example_fs ([''locked''] @ ''x'' # [])) =
      [''-- locked --\<newline>'', ''\<newline>'', ''-- x --\<newline>'', ''a\<newline>'', ''b\<newline>'', ''\<newline>'']"
    using three one by (simp add: header_def)
  with one two locked flaky show ?thesis
    by (simp add: header_def error_message_def with_newline_def endswith_def)
qed

text \<open>
  The claim as the specification words it, that a file whose read fails gives no content
  line, does not hold when the failure comes after the first line has been read.
\<close>

theorem C8_counterexample:
  "example_fs ''flaky'' = Read_error ''a\<newline>'' ''[Errno 5] Input/output error''
   \<and> snd (read_all_lines example_fs [''flaky'']) = [''Error reading flaky: [Errno 5] Input/output error'']
   \<and> fst (read_all_lines example_fs [''flaky'']) = [''-- flaky --\<newline>'', ''a\<newline>'', ''\<newline>'']
   \<and> fst (read_all_lines example_fs [''flaky'']) \<noteq> [header ''flaky'', ''\<newline>'']"
  by (simp add: read_all_lines_def read_file_def example_fs_def header_def with_newline_def
      endswith_def error_message_def)

text \<open>
  C9. Every line the collector returns, header, content or separator, ends with one \<open>\n\<close>
  and not with two. A content line is a line of the file as \<open>with_newline\<close> leaves it: the
  same line when it ends with \<open>\n\<close>, the line with \<open>\n\<close> appended when it does not. The
  lines of a file, put together, are its text.
\<close>

theorem C9_every_line_ends_with_one_newline:
  "(\<forall>l\<in>set (fst (read_all_lines fs file_list)). one_trailing_newline l)
   \<and> (endswith l [newline] \<longrightarrow> with_newline l = l)
   \<and> (\<not> endswith l [newline] \<longrightarrow> with_newline l = l @ [newline])
   \<and> (fs p = Read_ok content \<longrightarrow>
        fst (read_all_lines fs [p]) =
          header p # map with_newline (iter_lines content) @ [[newline]])
   \<and> concat (iter_lines content) = content"
  using all_lines_one [of fs file_list] iter_lines_concat [of content]
  by (simp add: with_newline_def read_ok)

theorem C9_every_line_ends_with_one_newline_witness:
  "''b\<newline>'' \<in> set (fst (read_all_lines example_fs [''x'']))
   \<and> one_trailing_newline ''b\<newline>''
   \<and> endswith ''a\<newline>'' ''\<newline>'' \<and> with_newline ''a\<newline>'' = ''a\<newline>''
   \<and> \<not> endswith ''b'' ''\<newline>'' \<and> with_newline ''b'' = ''b\<newline>''
   \<and> example_fs ''x'' = Read_ok ''a\<newline>b''
   \<and> fst (read_all_lines example_fs [''x'']) = [''-- x --\<newline>'', ''a\<newline>'', ''b\<newline>'', ''\<newline>'']"
proof -
  have x: "example_fs ''x'' = Read_ok ''a\<newline>b''"
    by (simp add: example_fs_def)
  have ends: "endswith ''a\<newline>'' ''\<newline>''" "\<not> endswith ''b'' ''\<newline>''"
    by (simp_all add: endswith_def)
  have lines: "iter_lines ''a\<newline>b'' = [''a\<newline>'', ''b'']"
    by simp
  from C9_every_line_ends_with_one_newline [of example_fs "[''x'']" "''a\<newline>''" "''x''" "''a\<newline>b''"] x ends
  have all: "\<forall>l\<in>set (fst (read_all_lines example_fs [''x''])). one_trailing_newline l"
    and a: "with_newline ''a\<newline>'' = ''a\<newline>''"
    and block: "fst (read_all_lines example_fs [''x''])
      = header ''x'' # map with_newline (iter_lines ''a\<newline>b'') @ [[newline]]"
    by blast+
  from C9_every_line_ends_with_one_newline [of example_fs "[''x'']" "''b''"] ends
  have b: "with_newline ''b'' = ''b\<newline>''"
    by simp
  from block have block': "fst (read_all_lines example_fs [''x''])
      = [''-- x --\<newline>'', ''a\<newline>'', ''b\<newline>'', ''\<newline>'']"
    by (simp only: lines) (simp add: a b header_def)
  then have mem: "''b\<newline>'' \<in> set (fst (read_all_lines example_fs [''x'']))"
    by simp
  with all have "one_trailing_newline ''b\<newline>''"
    by blast
  with mem ends a b x block' show ?thesis
    by simp
qed

section \<open>The claim about the input list\<close>

text \<open>
  C10. \<open>write_exports\<close> does not change the list it is given: after the call the reference
  \<open>lines\<close> names the same list as before. More, every object that was in the store before
  the call is unchanged; only the objects the slices created are extended. The files
  written are those of the partitioner over values, padding included.
\<close>

theorem C10_input_list_unchanged:
  "deref (heap (write_exports_heap l export_root h)) l = deref h l
   \<and> take (length h) (heap (write_exports_heap l export_root h)) = h
   \<and> files (write_exports_heap l export_root h) = write_exports (deref h l) export_root"
proof -
  let ?s0 = "\<lparr>index = 1, pos = 0, files = [], heap = h\<rparr>"
  let ?h' = "heap (write_exports_heap l export_root h)"
  from write_loop_heap_frame [of ?s0 l export_root]
  have frame: "take (length h) ?h' = h"
    and out: "files (write_exports_heap l export_root h) = write_exports (deref h l) export_root"
    by (simp_all add: write_exports_heap_def write_exports_def)
  have "deref ?h' l = deref h l"
  proof (cases "l < length h")
    case True
    have "length h \<le> length ?h'"
      by (metis frame length_take min.cobounded1)
    moreover have "take (length h) ?h' ! l = ?h' ! l"
      using True by simp
    ultimately show ?thesis
      using True frame by (simp add: deref_def)
  next
    case False
    then have "write_exports_heap l export_root h = ?s0"
      by (simp add: write_exports_heap_def write_loop_heap_stop deref_def)
    then show ?thesis
      by simp
  qed
  with frame out show ?thesis
    by simp
qed

end
